theory Spec2Isabelle
  imports Main "HOL-Library.Sublist"
begin

section \<open>JSON values as Python sees them\<close>

text \<open>
  The three endpoints answer with JSON objects whose fields are scalars. A field value is
  \<open>None\<close>, a bool, an int or a str; floats and nested values are outside this model.
\<close>

datatype jval = JNull | JBool bool | JInt int | JStr string

type_synonym jobj = "string \<rightharpoonup> jval"

text \<open>
  What \<open>requests.get\<close>/\<open>requests.post\<close>, \<open>raise_for_status()\<close> and \<open>response.json()\<close>
  deliver together: either one of them raises (\<open>Fault\<close> holds \<open>str(e)\<close>), or the body is a
  JSON object. A body that is valid JSON but not an object makes every use the code has for
  it (\<open>data[...]\<close>, \<open>.get\<close>) raise inside the same \<open>try\<close>, so it is a \<open>Fault\<close> as well.
\<close>

datatype reply = Fault string | Body jobj

datatype exn = Exception string

text \<open>\<open>d.get(k)\<close> and \<open>d.get(k, default)\<close>.\<close>

definition dict_get :: "jobj \<Rightarrow> string \<Rightarrow> jval" where
  "dict_get d k = (case d k of None \<Rightarrow> JNull | Some v \<Rightarrow> v)"

definition dict_get_default :: "jobj \<Rightarrow> string \<Rightarrow> jval \<Rightarrow> jval" where
  "dict_get_default d k dflt = (case d k of None \<Rightarrow> dflt | Some v \<Rightarrow> v)"

text \<open>Truthiness, as in \<open>if self.access_token\<close>.\<close>

fun truthy :: "jval \<Rightarrow> bool" where
  "truthy JNull = False"
| "truthy (JBool b) = b"
| "truthy (JInt i) = (i \<noteq> 0)"
| "truthy (JStr s) = (s \<noteq> [])"

text \<open>\<open>v == 0\<close>: Python's \<open>False\<close> equals \<open>0\<close>, \<open>None\<close> and strings do not.\<close>

fun eq_zero :: "jval \<Rightarrow> bool" where
  "eq_zero (JInt i) = (i = 0)"
| "eq_zero (JBool b) = (b = False)"
| "eq_zero JNull = False"
| "eq_zero (JStr s) = False"

section \<open>Strings\<close>

definition digit :: "nat \<Rightarrow> char" where
  "digit n = ''0123456789'' ! n"

fun str_of_nat :: "nat \<Rightarrow> string" where
  "str_of_nat n =
     (if n < 10 then [digit n] else str_of_nat (n div 10) @ [digit (n mod 10)])"

declare str_of_nat.simps [simp del]

definition str_of_int :: "int \<Rightarrow> string" where
  "str_of_int i = (if i < 0 then CHR ''-'' # str_of_nat (nat (- i)) else str_of_nat (nat i))"

text \<open>\<open>str(v)\<close>, as an f-string formats a value.\<close>

fun py_str :: "jval \<Rightarrow> string" where
  "py_str JNull = ''None''"
| "py_str (JBool b) = (if b then ''True'' else ''False'')"
| "py_str (JInt i) = str_of_int i"
| "py_str (JStr s) = s"

fun type_name :: "jval \<Rightarrow> string" where
  "type_name JNull = ''NoneType''"
| "type_name (JBool b) = ''bool''"
| "type_name (JInt i) = ''int''"
| "type_name (JStr s) = ''str''"

definition quoted :: "string \<Rightarrow> string" where
  "quoted s = CHR 0x27 # s @ [CHR 0x27]"

text \<open>\<open>str.lower()\<close> on the ASCII letters; every other character is left as it is.\<close>

definition lower_char :: "char \<Rightarrow> char" where
  "lower_char c =
     (case map_of (zip ''ABCDEFGHIJKLMNOPQRSTUVWXYZ'' ''abcdefghijklmnopqrstuvwxyz'') c of
        Some l \<Rightarrow> l
      | None \<Rightarrow> c)"

definition lower :: "string \<Rightarrow> string" where
  "lower s = map lower_char s"

text \<open>\<open>sub in s\<close> on strings: \<open>sub\<close> occurs in \<open>s\<close> as a contiguous run.\<close>

fun py_in :: "string \<Rightarrow> string \<Rightarrow> bool" where
  "py_in sub [] = (sub = [])"
| "py_in sub (c # cs) = (prefix sub (c # cs) \<or> py_in sub cs)"



section \<open>Python floats of integer value\<close>

text \<open>
  \<open>time.time()\<close> and \<open>token_expire_time\<close> are floats. The model reads the clock in whole
  seconds and holds the doubles of integer value and the two infinities. An int below
  \<open>2^53\<close> in magnitude is a double as it is; a larger one is rounded to 53 significant
  bits, ties to even; from \<open>2^1024 - 2^970\<close> on it rounds beyond the largest double.
\<close>

datatype pyfloat = Finite int | PosInf | NegInf

function bit_length :: "int \<Rightarrow> nat" where
  "bit_length n = (if n \<le> 0 then 0 else Suc (bit_length (n div 2)))"
  by pat_completeness auto
termination
  by (relation "measure nat") auto

declare bit_length.simps [simp del]

definition round53 :: "int \<Rightarrow> int" where
  "round53 n =
     (if \<bar>n\<bar> < 2 ^ 53 then n
      else
        let m = \<bar>n\<bar>;
            e = bit_length m - 53;
            q = m div 2 ^ e;
            r = m mod 2 ^ e;
            q' = (if 2 ^ e < 2 * r \<or> (2 * r = 2 ^ e \<and> odd q) then q + 1 else q)
        in sgn n * (q' * 2 ^ e))"

definition double_overflow :: int where
  "double_overflow = 2 ^ 1024 - 2 ^ 970"

text \<open>
  An int operand of a float addition is converted first, and the conversion raises
  \<open>OverflowError\<close> for an int that does not fit. \<open>Inr\<close> holds the value of the double.
\<close>

definition float_of_int :: "int \<Rightarrow> string + int" where
  "float_of_int i =
     (if double_overflow \<le> \<bar>i\<bar> then Inl ''int too large to convert to float''
      else Inr (round53 i))"

text \<open>The double nearest to an integer; float arithmetic overflows to an infinity.\<close>

definition to_double :: "int \<Rightarrow> pyfloat" where
  "to_double n =
     (if double_overflow \<le> n then PosInf
      else if n \<le> - double_overflow then NegInf
      else Finite (round53 n))"

text \<open>\<open>x + y\<close> for a float \<open>x\<close> and a finite double of value \<open>y\<close>: the exact sum, rounded.\<close>

fun float_add :: "pyfloat \<Rightarrow> int \<Rightarrow> pyfloat" where
  "float_add (Finite a) b = to_double (a + b)"
| "float_add PosInf b = PosInf"
| "float_add NegInf b = NegInf"

fun float_less :: "pyfloat \<Rightarrow> pyfloat \<Rightarrow> bool" where
  "float_less (Finite a) (Finite b) = (a < b)"
| "float_less (Finite a) PosInf = True"
| "float_less (Finite a) NegInf = False"
| "float_less PosInf y = False"
| "float_less NegInf NegInf = False"
| "float_less NegInf y = True"

section \<open>The world outside the service\<close>

text \<open>
  Everything the code does to its surroundings is logged with the clock reading at which
  it started. \<open>print\<close> is not an effect of this model.
\<close>

datatype event =
    Slept int
  | Token_get
  | Uuid_drawn
  | Submit_post jval string string string
  | is_query: Query_post jval string string
  | Removed string

record world =
  clock :: int
  files :: "string set"
  events :: "(int \<times> event) list"

text \<open>
  The environment answers the calls: the \<open>i\<close>-th request to an endpoint gets the
  \<open>i\<close>-th reply, a network call takes \<open>latency\<close> seconds, and \<open>uuid4\<close> is the generator
  of identifiers. Of \<open>pydub\<close> the model keeps whether \<open>AudioSegment.from_file\<close> raises
  (\<open>Some\<close> holds \<open>str(e)\<close>) and what \<open>export\<close> does: it writes its file and returns, or it
  raises, having created the file before the fault or not. \<open>os.path.getsize\<close> raises or
  gives the size in bytes.
\<close>

datatype export_outcome = Exported | Export_raised string bool

record env =
  token_endpoint :: "nat \<Rightarrow> reply"
  submit_endpoint :: "nat \<Rightarrow> reply"
  query_endpoint :: "nat \<Rightarrow> reply"
  latency :: "nat \<Rightarrow> nat"
  uuid4 :: "nat \<Rightarrow> string"
  from_file_fault :: "string \<Rightarrow> string option"
  export_outcome :: "string \<Rightarrow> export_outcome"
  getsize :: "string \<Rightarrow> string + nat"

definition count_events :: "(event \<Rightarrow> bool) \<Rightarrow> world \<Rightarrow> nat" where
  "count_events P w = length (filter (\<lambda>te. P (snd te)) (events w))"

definition token_gets :: "world \<Rightarrow> nat" where
  "token_gets w = count_events (\<lambda>e. e = Token_get) w"

definition uuids_drawn :: "world \<Rightarrow> nat" where
  "uuids_drawn w = count_events (\<lambda>e. e = Uuid_drawn) w"

definition submits_sent :: "world \<Rightarrow> nat" where
  "submits_sent w = count_events (\<lambda>e. case e of Submit_post t v l p \<Rightarrow> True | _ \<Rightarrow> False) w"

definition queries_sent :: "world \<Rightarrow> nat" where
  "queries_sent w = count_events is_query w"

definition sleeps :: "world \<Rightarrow> nat" where
  "sleeps w = count_events (\<lambda>e. case e of Slept d \<Rightarrow> True | _ \<Rightarrow> False) w"

definition log_event :: "event \<Rightarrow> world \<Rightarrow> world" where
  "log_event e w = w\<lparr>events := events w @ [(clock w, e)]\<rparr>"

definition net_call :: "env \<Rightarrow> event \<Rightarrow> world \<Rightarrow> world" where
  "net_call en e w =
     (log_event e w)\<lparr>clock := clock w + int (latency en (length (events w)))\<rparr>"

text \<open>\<open>time.sleep(delay)\<close>: a negative delay raises \<open>ValueError\<close>.\<close>

definition sleep :: "int \<Rightarrow> world \<Rightarrow> string + world" where
  "sleep delay w =
     (if delay < 0 then Inl ''sleep length must be non-negative''
      else Inr ((log_event (Slept delay) w)\<lparr>clock := clock w + delay\<rparr>))"

text \<open>\<open>time.time()\<close>: the double nearest to the clock.\<close>

definition time_time :: "world \<Rightarrow> pyfloat" where
  "time_time w = to_double (clock w)"

section \<open>SpeechService\<close>

record speech_service =
  appid :: string
  appsecret :: string
  access_token :: jval
  token_expire_time :: pyfloat

definition init :: "string \<Rightarrow> string \<Rightarrow> speech_service" where
  "init a b = \<lparr>appid = a, appsecret = b, access_token = JNull, token_expire_time = Finite 0\<rparr>"

text \<open>
  \<open>time.time() + data.get('expires_in', 7200)\<close>: an int is converted to a float and
  added, \<open>True\<close> and \<open>False\<close> count as 1 and 0, a str or \<open>None\<close> raises \<open>TypeError\<close>.
\<close>

fun add_to_time :: "pyfloat \<Rightarrow> jval \<Rightarrow> string + pyfloat" where
  "add_to_time t (JInt i) =
     (case float_of_int i of Inl e \<Rightarrow> Inl e | Inr f \<Rightarrow> Inr (float_add t f))"
| "add_to_time t (JBool b) = Inr (float_add t (if b then 1 else 0))"
| "add_to_time t v =
     Inl (''unsupported operand type(s) for +: '' @ quoted ''float'' @ '' and '' @
          quoted (type_name v))"

definition get_access_token ::
  "env \<Rightarrow> speech_service \<Rightarrow> world \<Rightarrow> (exn + jval) \<times> speech_service \<times> world" where
  "get_access_token en s w =
     (if truthy (access_token s) \<and>
        float_less (time_time w) (float_add (token_expire_time s) (- 300))
      then (Inr (access_token s), s, w)
      else
        let w1 = net_call en Token_get w in
        (case token_endpoint en (token_gets w) of
          Fault e \<Rightarrow> (Inl (Exception (''Error getting access_token: '' @ e)), s, w1)
        | Body data \<Rightarrow>
            (case data ''access_token'' of
               Some tok \<Rightarrow>
                 let s1 = s\<lparr>access_token := tok\<rparr> in
                 (case add_to_time (time_time w1)
                         (dict_get_default data ''expires_in'' (JInt 7200)) of
                    Inr t \<Rightarrow> (Inr tok, s1\<lparr>token_expire_time := t\<rparr>, w1)
                  | Inl e \<Rightarrow> (Inl (Exception (''Error getting access_token: '' @ e)), s1, w1))
             | None \<Rightarrow>
                 (Inl (Exception (''Error getting access_token: '' @
                        ''Failed to get access_token: '' @
                        py_str (dict_get_default data ''errmsg'' (JStr ''Unknown error'')))),
                  s, w1))))"


text \<open>\<open>upload_voice_for_recognition\<close>. A file that does not exist makes \<open>open\<close> raise.\<close>

definition no_such_file :: "string \<Rightarrow> string" where
  "no_such_file p = ''[Errno 2] No such file or directory: '' @ quoted p"

definition upload_voice_for_recognition ::
  "env \<Rightarrow> speech_service \<Rightarrow> world \<Rightarrow> string \<Rightarrow> string \<Rightarrow>
   (exn + string) \<times> speech_service \<times> world" where
  "upload_voice_for_recognition en s w audio_file_path lang =
     (case get_access_token en s w of
        (Inl e, s1, w1) \<Rightarrow> (Inl e, s1, w1)
      | (Inr tok, s1, w1) \<Rightarrow>
          let voice_id = uuid4 en (uuids_drawn w1);
              w2 = log_event Uuid_drawn w1
          in if audio_file_path \<notin> files w2
             then (Inl (Exception (''Voice upload error: '' @ no_such_file audio_file_path)),
                   s1, w2)
             else
               (let w3 = net_call en (Submit_post tok voice_id lang audio_file_path) w2 in
                (case submit_endpoint en (submits_sent w2) of
                   Fault e \<Rightarrow> (Inl (Exception (''Voice upload error: '' @ e)), s1, w3)
                 | Body result \<Rightarrow>
                     (if eq_zero (dict_get result ''errcode'')
                      then (Inr voice_id, s1, w3)
                      else (Inl (Exception (''Voice upload error: '' @ ''Upload failed: '' @
                              py_str (dict_get_default result ''errmsg''
                                        (JStr ''Unknown error'')))),
                            s1, w3)))))"

text \<open>
  \<open>query_recognition_result\<close>. What the body of the \<open>try\<close> does in one attempt: it
  returns a value, raises (caught by the handler of the same \<open>try\<close>), or reaches the end
  of the iteration (\<open>continue\<close>, or nothing to report yet).
\<close>

datatype flow = Returned jval | Raised string | Next_attempt

definition classify :: "jobj \<Rightarrow> flow" where
  "classify result =
     (case result ''result'' of
        Some v \<Rightarrow> Returned v
      | None \<Rightarrow>
          if eq_zero (dict_get result ''errcode'') then Next_attempt
          else (case dict_get_default result ''errmsg'' (JStr ''Unknown error'') of
                  JStr error_msg \<Rightarrow>
                    if py_in ''busy'' (lower error_msg) \<or> py_in ''wait'' (lower error_msg)
                    then Next_attempt
                    else Raised (''Recognition error: '' @ error_msg)
                | v \<Rightarrow> Raised (quoted (type_name v) @ '' object has no attribute '' @
                               quoted ''lower'')))"

text \<open>The flow of the \<open>try\<close> body once the request has been answered.\<close>

definition outcome_of :: "reply \<Rightarrow> flow" where
  "outcome_of r = (case r of Fault e \<Rightarrow> Raised e | Body result \<Rightarrow> classify result)"

definition try_attempt ::
  "env \<Rightarrow> jval \<Rightarrow> string \<Rightarrow> string \<Rightarrow> int \<Rightarrow> world \<Rightarrow> flow \<times> world" where
  "try_attempt en tok voice_id lang delay w =
     (case sleep delay w of
        Inl e \<Rightarrow> (Raised e, w)
      | Inr w1 \<Rightarrow>
          (outcome_of (query_endpoint en (queries_sent w1)),
           net_call en (Query_post tok voice_id lang) w1))"

text \<open>The two exceptions with which the loop gives up.\<close>

definition max_retries_exceeded :: exn where
  "max_retries_exceeded = Exception ''Max retries exceeded without getting result''"

definition failed_after :: "int \<Rightarrow> string \<Rightarrow> exn" where
  "failed_after max_retries e =
     Exception (''Failed to get recognition result after '' @ str_of_int max_retries @
                '' attempts: '' @ e)"

function poll_loop ::
  "env \<Rightarrow> jval \<Rightarrow> string \<Rightarrow> string \<Rightarrow> int \<Rightarrow> int \<Rightarrow> int \<Rightarrow> world \<Rightarrow> (exn + jval) \<times> world" where
  "poll_loop en tok voice_id lang max_retries delay attempt w =
     (if attempt < max_retries then
        (case try_attempt en tok voice_id lang delay w of
           (Returned v, w') \<Rightarrow> (Inr v, w')
         | (Raised e, w') \<Rightarrow>
             if attempt = max_retries - 1
             then (Inl (failed_after max_retries e), w')
             else poll_loop en tok voice_id lang max_retries delay (attempt + 1) w'
         | (Next_attempt, w') \<Rightarrow>
             poll_loop en tok voice_id lang max_retries delay (attempt + 1) w')
      else (Inl max_retries_exceeded, w))"
  by pat_completeness auto
termination
  by (relation "measure (\<lambda>(en, tok, voice_id, lang, max_retries, delay, attempt, w).
        nat (max_retries - attempt))") auto

declare poll_loop.simps [simp del]

definition query_recognition_result ::
  "env \<Rightarrow> speech_service \<Rightarrow> world \<Rightarrow> string \<Rightarrow> string \<Rightarrow> int \<Rightarrow> int \<Rightarrow>
   (exn + jval) \<times> speech_service \<times> world" where
  "query_recognition_result en s w voice_id lang max_retries delay =
     (case get_access_token en s w of
        (Inl e, s1, w1) \<Rightarrow> (Inl e, s1, w1)
      | (Inr tok, s1, w1) \<Rightarrow>
          (case poll_loop en tok voice_id lang max_retries delay 0 w1 of
             (r, w2) \<Rightarrow> (r, s1, w2)))"

text \<open>
  \<open>recognize_speech\<close>. The \<open>finally\<close> block removes the converted file when the name
  \<open>converted_audio\<close> is bound, that is when the conversion returned, and the file exists.
\<close>

definition cleanup :: "string \<Rightarrow> world \<Rightarrow> world" where
  "cleanup converted_audio w =
     (if converted_audio \<in> files w
      then (log_event (Removed converted_audio) w)\<lparr>files := files w - {converted_audio}\<rparr>
      else w)"



section \<open>Vocabulary of the properties\<close>

text \<open>How a reply of the query endpoint reads: the fields the classification looks at.\<close>

definition carries_result :: "reply \<Rightarrow> bool" where
  "carries_result r = (case r of Fault e \<Rightarrow> False | Body d \<Rightarrow> d ''result'' \<noteq> None)"

definition transient_message :: "jval \<Rightarrow> bool" where
  "transient_message v =
     (case v of
        JStr m \<Rightarrow> py_in ''busy'' (lower m) \<or> py_in ''wait'' (lower m)
      | _ \<Rightarrow> False)"

definition error_reply :: "reply \<Rightarrow> bool" where
  "error_reply r =
     (case r of
        Fault e \<Rightarrow> False
      | Body d \<Rightarrow> d ''result'' = None \<and> \<not> eq_zero (dict_get d ''errcode''))"

definition remote_message :: "reply \<Rightarrow> jval" where
  "remote_message r =
     (case r of
        Fault e \<Rightarrow> JNull
      | Body d \<Rightarrow> dict_get_default d ''errmsg'' (JStr ''Unknown error''))"

definition transient_error :: "reply \<Rightarrow> bool" where
  "transient_error r = (error_reply r \<and> transient_message (remote_message r))"

definition permanent_error :: "reply \<Rightarrow> bool" where
  "permanent_error r = (error_reply r \<and> \<not> transient_message (remote_message r))"

text \<open>
  The credential invariant as the code tests it at the time \<open>now\<close>: a cached token, and
  more than 300 seconds left.
\<close>

definition credential_valid :: "speech_service \<Rightarrow> int \<Rightarrow> bool" where
  "credential_valid s now =
     (truthy (access_token s) \<and>
      float_less (to_double now) (float_add (token_expire_time s) (- 300)))"

text \<open>The log of \<open>w'\<close> is the log of \<open>w\<close> followed by events that all satisfy \<open>P\<close>.\<close>

definition extends_by :: "(event \<Rightarrow> bool) \<Rightarrow> world \<Rightarrow> world \<Rightarrow> bool" where
  "extends_by P w w' =
     (take (length (events w)) (events w') = events w \<and>
      list_all (\<lambda>te. P (snd te)) (drop (length (events w)) (events w')))"

section \<open>Example runs\<close>

text \<open>Replies of the platform, and environments that serve them in order.\<close>

definition token_granted :: reply where
  "token_granted = Body [''access_token'' \<mapsto> JStr ''T1'', ''expires_in'' \<mapsto> JInt 3600]"

definition token_without_expiry :: reply where
  "token_without_expiry = Body [''access_token'' \<mapsto> JStr ''T1'']"

definition token_refused :: reply where
  "token_refused = Body [''errcode'' \<mapsto> JInt 40013, ''errmsg'' \<mapsto> JStr ''invalid appid'']"

definition accepted :: reply where
  "accepted = Body [''errcode'' \<mapsto> JInt 0, ''errmsg'' \<mapsto> JStr ''ok'']"

definition not_ready :: reply where
  "not_ready = Body [''errcode'' \<mapsto> JInt 0]"

definition server_busy :: reply where
  "server_busy = Body [''errcode'' \<mapsto> JInt 1, ''errmsg'' \<mapsto> JStr ''server busy'']"

definition invalid_voice :: reply where
  "invalid_voice = Body [''errcode'' \<mapsto> JInt 2, ''errmsg'' \<mapsto> JStr ''invalid voice'']"

definition hello_world :: reply where
  "hello_world = Body [''result'' \<mapsto> JStr ''hello world'']"

definition unreachable :: reply where
  "unreachable = Fault ''connection refused''"

definition in_order :: "reply list \<Rightarrow> nat \<Rightarrow> reply" where
  "in_order rs i = (if i < length rs then rs ! i else unreachable)"

definition serving :: "reply list \<Rightarrow> reply list \<Rightarrow> reply list \<Rightarrow> env" where
  "serving tokens submits queries =
     \<lparr>token_endpoint = in_order tokens,
      submit_endpoint = in_order submits,
      query_endpoint = in_order queries,
      latency = (\<lambda>i. 2),
      uuid4 = (\<lambda>i. ''voice-'' @ str_of_nat i),
      from_file_fault = (\<lambda>p. None),
      export_outcome = (\<lambda>p. Exported),
      getsize = (\<lambda>p. Inr 48000)\<rparr>"

definition fresh_service :: speech_service where
  "fresh_service = init ''wx-appid'' ''wx-secret''"

definition cached_service :: speech_service where
  "cached_service = fresh_service\<lparr>access_token := JStr ''T0'', token_expire_time := Finite 1000\<rparr>"

definition world_at :: "int \<Rightarrow> world" where
  "world_at t = \<lparr>clock = t, files = {''voice.wav''}, events = []\<rparr>"

section \<open>Floats: the exact range and beyond\<close>

lemma round53_exact: "\<bar>n\<bar> < 2 ^ 53 \<Longrightarrow> round53 n = n"
  by (simp add: round53_def)

lemma to_double_exact: "\<bar>n\<bar> < 2 ^ 53 \<Longrightarrow> to_double n = Finite n"
  by (auto simp: to_double_def round53_def double_overflow_def)

lemma float_of_int_exact: "\<bar>n\<bar> < 2 ^ 53 \<Longrightarrow> float_of_int n = Inr n"
  by (auto simp: float_of_int_def round53_def double_overflow_def)

lemma float_of_int_fits:
  "\<bar>n\<bar> < double_overflow \<Longrightarrow> float_of_int n = Inr (round53 n)"
  by (simp add: float_of_int_def)

lemma float_of_int_too_large:
  "double_overflow \<le> \<bar>n\<bar> \<Longrightarrow> float_of_int n = Inl ''int too large to convert to float''"
  by (simp add: float_of_int_def)

text \<open>Beyond it: \<open>2^53 + 1\<close> is a tie and rounds to the even neighbour.\<close>

lemma bit_length_examples:
  "bit_length 9007199254740993 = 54" "bit_length 9007199254741694 = 54"
  by code_simp+

lemma round53_examples:
  "round53 9007199254740993 = 9007199254740992"
  "round53 9007199254741694 = 9007199254741694"
  by (simp_all add: round53_def Let_def bit_length_examples)

section \<open>Effects of the primitive steps\<close>

lemma count_events_log_event:
  "count_events P (log_event e w) = count_events P w + (if P e then 1 else 0)"
  by (simp add: count_events_def log_event_def)

lemma count_events_net_call:
  "count_events P (net_call en e w) = count_events P w + (if P e then 1 else 0)"
  by (simp add: count_events_def net_call_def log_event_def)

lemma count_events_clock: "count_events P (w\<lparr>clock := c\<rparr>) = count_events P w"
  by (simp add: count_events_def)

lemma count_events_files: "count_events P (w\<lparr>files := f\<rparr>) = count_events P w"
  by (simp add: count_events_def)

lemmas count_simps =
  count_events_log_event count_events_net_call count_events_clock count_events_files

lemma files_log_event: "files (log_event e w) = files w"
  by (simp add: log_event_def)

lemma files_net_call: "files (net_call en e w) = files w"
  by (simp add: net_call_def log_event_def)

lemma extends_by_iff:
  "extends_by P w w' \<longleftrightarrow>
     (\<exists>evs. events w' = events w @ evs \<and> list_all (\<lambda>te. P (snd te)) evs)"
proof
  assume a: "extends_by P w w'"
  have "events w' = take (length (events w)) (events w') @ drop (length (events w)) (events w')"
    by simp
  with a show "\<exists>evs. events w' = events w @ evs \<and> list_all (\<lambda>te. P (snd te)) evs"
    unfolding extends_by_def by metis
next
  assume "\<exists>evs. events w' = events w @ evs \<and> list_all (\<lambda>te. P (snd te)) evs"
  then show "extends_by P w w'" by (auto simp: extends_by_def)
qed

lemma extends_by_refl: "extends_by P w w"
  by (simp add: extends_by_def)

lemma extends_by_trans:
  "extends_by P w w' \<Longrightarrow> extends_by P w' w'' \<Longrightarrow> extends_by P w w''"
  unfolding extends_by_iff by auto

lemma extends_by_log_event: "P e \<Longrightarrow> extends_by P w (log_event e w)"
  by (simp add: extends_by_iff log_event_def)

lemma extends_by_net_call: "P e \<Longrightarrow> extends_by P w (net_call en e w)"
  by (simp add: extends_by_iff net_call_def log_event_def)

lemma extends_by_clock:
  "extends_by P w w' \<Longrightarrow> extends_by P w (w'\<lparr>clock := c\<rparr>)"
  by (simp add: extends_by_def)

lemma extends_by_count:
  assumes "extends_by P w w'" and "\<And>e. P e \<Longrightarrow> \<not> Q e"
  shows "count_events Q w' = count_events Q w"
proof -
  from assms(1) obtain evs where e: "events w' = events w @ evs"
    and a: "list_all (\<lambda>te. P (snd te)) evs"
    unfolding extends_by_iff by blast
  have "filter (\<lambda>te. Q (snd te)) evs = []"
    using a assms(2) by (auto simp: list_all_iff filter_empty_conv)
  then show ?thesis by (simp add: count_events_def e)
qed

section \<open>The credential lookup\<close>

lemma get_access_token_world:
  "snd (snd (get_access_token en s w)) =
     (if credential_valid s (clock w) then w else net_call en Token_get w)"
  by (simp add: get_access_token_def credential_valid_def time_time_def Let_def
           split: reply.splits option.splits sum.splits)

lemma get_access_token_files: "files (snd (snd (get_access_token en s w))) = files w"
  by (simp add: get_access_token_world files_net_call)

lemma get_access_token_queries:
  "queries_sent (snd (snd (get_access_token en s w))) = queries_sent w"
  by (simp add: get_access_token_world queries_sent_def count_simps)

lemma get_access_token_sleeps:
  "sleeps (snd (snd (get_access_token en s w))) = sleeps w"
  by (simp add: get_access_token_world sleeps_def count_simps)

lemma get_access_token_count:
  "\<not> P Token_get \<Longrightarrow>
   count_events P (snd (snd (get_access_token en s w))) = count_events P w"
  by (simp add: get_access_token_world count_simps)

lemma get_access_token_valid:
  "credential_valid s (clock w) \<Longrightarrow> get_access_token en s w = (Inr (access_token s), s, w)"
  by (simp add: get_access_token_def credential_valid_def time_time_def)

lemma get_access_token_fetch:
  "\<not> credential_valid s (clock w) \<Longrightarrow>
   get_access_token en s w =
     (case token_endpoint en (token_gets w) of
        Fault e \<Rightarrow>
          (Inl (Exception (''Error getting access_token: '' @ e)), s, net_call en Token_get w)
      | Body data \<Rightarrow>
          (case data ''access_token'' of
             Some tok \<Rightarrow>
               (case add_to_time (time_time (net_call en Token_get w))
                       (dict_get_default data ''expires_in'' (JInt 7200)) of
                  Inr t \<Rightarrow>
                    (Inr tok, s\<lparr>access_token := tok, token_expire_time := t\<rparr>,
                     net_call en Token_get w)
                | Inl e \<Rightarrow>
                    (Inl (Exception (''Error getting access_token: '' @ e)),
                     s\<lparr>access_token := tok\<rparr>, net_call en Token_get w))
           | None \<Rightarrow>
               (Inl (Exception (''Error getting access_token: '' @
                      ''Failed to get access_token: '' @
                      py_str (dict_get_default data ''errmsg'' (JStr ''Unknown error'')))),
                s, net_call en Token_get w)))"
  by (auto simp: get_access_token_def credential_valid_def time_time_def Let_def
        split: reply.splits option.splits sum.splits)

section \<open>One attempt\<close>

lemma try_attempt_negative:
  "delay < 0 \<Longrightarrow>
   try_attempt en tok vid lang delay w = (Raised ''sleep length must be non-negative'', w)"
  by (simp add: try_attempt_def sleep_def)

lemma try_attempt_nonneg:
  "0 \<le> delay \<Longrightarrow>
   try_attempt en tok vid lang delay w =
     (outcome_of (query_endpoint en (queries_sent w)),
      net_call en (Query_post tok vid lang)
        ((log_event (Slept delay) w)\<lparr>clock := clock w + delay\<rparr>))"
  by (simp add: try_attempt_def sleep_def queries_sent_def count_simps)

lemma try_attempt_queries_le:
  "queries_sent (snd (try_attempt en tok vid lang delay w)) \<le> Suc (queries_sent w)"
  by (cases "delay < 0")
     (simp_all add: try_attempt_negative try_attempt_nonneg queries_sent_def count_simps)

lemma try_attempt_queries:
  "0 \<le> delay \<Longrightarrow> queries_sent (snd (try_attempt en tok vid lang delay w)) = Suc (queries_sent w)"
  by (simp add: try_attempt_nonneg queries_sent_def count_simps)

lemma try_attempt_sleeps:
  "0 \<le> delay \<Longrightarrow> sleeps (snd (try_attempt en tok vid lang delay w)) = Suc (sleeps w)"
  by (simp add: try_attempt_nonneg sleeps_def count_simps)


lemma try_attempt_extends:
  "extends_by (\<lambda>e. e = Slept delay \<or> e = Query_post tok vid lang) w
     (snd (try_attempt en tok vid lang delay w))"
proof (cases "delay < 0")
  case True
  then show ?thesis by (simp add: try_attempt_negative extends_by_refl)
next
  case False
  then show ?thesis
    by (simp add: try_attempt_nonneg extends_by_iff net_call_def log_event_def)
qed

section \<open>Reading a reply\<close>

lemma outcome_of_Returned:
  "outcome_of r = Returned v \<longleftrightarrow> (\<exists>d. r = Body d \<and> d ''result'' = Some v)"
  by (auto simp: outcome_of_def classify_def split: reply.splits option.splits jval.splits)

lemma carries_result_iff: "carries_result r \<longleftrightarrow> (\<exists>v. outcome_of r = Returned v)"
  by (auto simp: outcome_of_Returned carries_result_def split: reply.splits)

lemma outcome_of_permanent:
  "permanent_error r \<longleftrightarrow> (\<exists>d e. r = Body d \<and> outcome_of r = Raised e)"
  by (auto simp: permanent_error_def error_reply_def remote_message_def transient_message_def
        outcome_of_def classify_def split: reply.splits option.splits jval.splits)

lemma outcome_of_transient: "transient_error r \<Longrightarrow> outcome_of r = Next_attempt"
  by (auto simp: transient_error_def error_reply_def remote_message_def transient_message_def
        outcome_of_def classify_def split: reply.splits option.splits jval.splits)

lemma outcome_of_quiet:
  "\<not> carries_result r \<Longrightarrow> \<not> permanent_error r \<Longrightarrow>
   outcome_of r = (case r of Fault e \<Rightarrow> Raised e | Body d \<Rightarrow> Next_attempt)"
  by (cases r; cases "outcome_of r")
     (auto simp: carries_result_iff outcome_of_permanent outcome_of_def)

section \<open>The loop\<close>

lemma poll_loop_done:
  "\<not> attempt < max_retries \<Longrightarrow>
   poll_loop en tok vid lang max_retries delay attempt w = (Inl max_retries_exceeded, w)"
  by (simp add: poll_loop.simps)

lemma poll_loop_step:
  "attempt < max_retries \<Longrightarrow>
   poll_loop en tok vid lang max_retries delay attempt w =
     (case try_attempt en tok vid lang delay w of
        (Returned v, w') \<Rightarrow> (Inr v, w')
      | (Raised e, w') \<Rightarrow>
          if attempt = max_retries - 1 then (Inl (failed_after max_retries e), w')
          else poll_loop en tok vid lang max_retries delay (attempt + 1) w'
      | (Next_attempt, w') \<Rightarrow> poll_loop en tok vid lang max_retries delay (attempt + 1) w')"
  by (subst poll_loop.simps) simp

lemma poll_loop_queries_le:
  "queries_sent (snd (poll_loop en tok vid lang max_retries delay attempt w))
     \<le> queries_sent w + nat (max_retries - attempt)"
proof (induction "nat (max_retries - attempt)" arbitrary: attempt w)
  case 0
  then show ?case by (simp add: poll_loop_done)
next
  case (Suc n)
  then have lt: "attempt < max_retries" and n: "n = nat (max_retries - (attempt + 1))"
    by auto
  obtain f w' where t: "try_attempt en tok vid lang delay w = (f, w')" by force
  have q: "queries_sent w' \<le> Suc (queries_sent w)"
    using try_attempt_queries_le [of en tok vid lang delay w] t by simp
  have ih: "queries_sent (snd (poll_loop en tok vid lang max_retries delay (attempt + 1) w'))
              \<le> queries_sent w' + n"
    using Suc.hyps(1) [OF n] n by simp
  show ?case
    using q ih Suc.hyps(2) [symmetric]
    by (simp add: poll_loop_step [OF lt] t split: flow.splits)
qed


lemma poll_loop_extends:
  "extends_by (\<lambda>e. e = Slept delay \<or> e = Query_post tok vid lang) w
     (snd (poll_loop en tok vid lang max_retries delay attempt w))"
proof (induction "nat (max_retries - attempt)" arbitrary: attempt w)
  case 0
  then show ?case by (simp add: poll_loop_done extends_by_refl)
next
  case (Suc n)
  then have lt: "attempt < max_retries" and n: "n = nat (max_retries - (attempt + 1))"
    by auto
  obtain f w' where t: "try_attempt en tok vid lang delay w = (f, w')" by force
  have q: "extends_by (\<lambda>e. e = Slept delay \<or> e = Query_post tok vid lang) w w'"
    using try_attempt_extends [of delay tok vid lang w en] t by simp
  have ih: "extends_by (\<lambda>e. e = Slept delay \<or> e = Query_post tok vid lang) w'
              (snd (poll_loop en tok vid lang max_retries delay (attempt + 1) w'))"
    by (rule Suc.hyps(1) [OF n])
  have tr: "extends_by (\<lambda>e. e = Slept delay \<or> e = Query_post tok vid lang) w
              (snd (poll_loop en tok vid lang max_retries delay (attempt + 1) w'))"
    by (rule extends_by_trans [OF q ih])
  show ?case
    using q tr by (simp add: poll_loop_step [OF lt] t split: flow.splits)
qed

text \<open>The first \<open>k\<close> attempts bring no result and attempt \<open>k\<close> does.\<close>

lemma poll_loop_returns_at:
  assumes "0 \<le> delay"
    and "attempt + int k < max_retries"
    and "\<forall>j<k. \<not> carries_result (query_endpoint en (queries_sent w + j))"
    and "outcome_of (query_endpoint en (queries_sent w + k)) = Returned v"
  shows "fst (poll_loop en tok vid lang max_retries delay attempt w) = Inr v \<and>
         queries_sent (snd (poll_loop en tok vid lang max_retries delay attempt w))
           = queries_sent w + Suc k \<and>
         sleeps (snd (poll_loop en tok vid lang max_retries delay attempt w))
           = sleeps w + Suc k"
  using assms(2-4)
proof (induction k arbitrary: attempt w)
  case 0
  then have lt: "attempt < max_retries" by simp
  show ?case
    using 0(3) assms(1)
    by (simp add: poll_loop_step [OF lt] try_attempt_nonneg queries_sent_def sleeps_def count_simps)
next
  case (Suc k)
  then have lt: "attempt < max_retries" and nf: "attempt \<noteq> max_retries - 1" by auto
  let ?w' = "snd (try_attempt en tok vid lang delay w)"
  have f: "fst (try_attempt en tok vid lang delay w) = outcome_of (query_endpoint en (queries_sent w))"
    using assms(1) by (simp add: try_attempt_nonneg)
  have nr: "\<And>v. outcome_of (query_endpoint en (queries_sent w)) \<noteq> Returned v"
    using Suc.prems(2) carries_result_iff [of "query_endpoint en (queries_sent w)"]
    by (auto dest: spec [of _ 0])
  have q: "queries_sent ?w' = Suc (queries_sent w)"
    using assms(1) by (rule try_attempt_queries)
  have sl: "sleeps ?w' = Suc (sleeps w)"
    using assms(1) by (rule try_attempt_sleeps)
  have step: "poll_loop en tok vid lang max_retries delay attempt w =
              poll_loop en tok vid lang max_retries delay (attempt + 1) ?w'"
    using nr f nf
    by (cases "try_attempt en tok vid lang delay w"; cases "outcome_of (query_endpoint en (queries_sent w))")
       (auto simp: poll_loop_step [OF lt])
  have a1: "attempt + 1 + int k < max_retries" using Suc.prems(1) by simp
  have a2: "\<forall>j<k. \<not> carries_result (query_endpoint en (queries_sent ?w' + j))"
    using Suc.prems(2) q by (auto dest: spec [of _ "Suc _"])
  have a3: "outcome_of (query_endpoint en (queries_sent ?w' + k)) = Returned v"
    using Suc.prems(3) q by simp
  show ?case
    using Suc.IH [OF a1 a2 a3] q sl by (simp add: step)
qed

lemma poll_loop_gives_up:
  assumes "0 \<le> delay"
    and "attempt + int k = max_retries - 1"
    and "\<forall>j<Suc k. \<not> carries_result (query_endpoint en (queries_sent w + j))"
  shows "fst (poll_loop en tok vid lang max_retries delay attempt w) =
           Inl (case outcome_of (query_endpoint en (queries_sent w + k)) of
                  Raised e \<Rightarrow> failed_after max_retries e
                | _ \<Rightarrow> max_retries_exceeded)"
  using assms(2,3)
proof (induction k arbitrary: attempt w)
  case 0
  then have lt: "attempt < max_retries" and fin: "attempt = max_retries - 1" by auto
  have nr: "\<And>v. outcome_of (query_endpoint en (queries_sent w)) \<noteq> Returned v"
    using "0.prems"(2) carries_result_iff [of "query_endpoint en (queries_sent w)"] by auto
  have d: "\<not> attempt + 1 < max_retries" using fin by simp
  have "poll_loop en tok vid lang max_retries delay attempt w =
          (case outcome_of (query_endpoint en (queries_sent w)) of
             Returned v \<Rightarrow> (Inr v, snd (try_attempt en tok vid lang delay w))
           | Raised e \<Rightarrow>
               (Inl (failed_after max_retries e), snd (try_attempt en tok vid lang delay w))
           | Next_attempt \<Rightarrow>
               (Inl max_retries_exceeded, snd (try_attempt en tok vid lang delay w)))"
    unfolding poll_loop_step [OF lt] using assms(1)
    by (simp add: try_attempt_nonneg poll_loop_done fin split: flow.splits)
  with nr show ?case
    by (cases "outcome_of (query_endpoint en (queries_sent w))") auto
next
  case (Suc k)
  then have lt: "attempt < max_retries" and nf: "attempt \<noteq> max_retries - 1" by auto
  let ?w' = "snd (try_attempt en tok vid lang delay w)"
  have f: "fst (try_attempt en tok vid lang delay w)
             = outcome_of (query_endpoint en (queries_sent w))"
    using assms(1) by (simp add: try_attempt_nonneg)
  have nr: "\<And>v. outcome_of (query_endpoint en (queries_sent w)) \<noteq> Returned v"
    using Suc.prems(2) carries_result_iff [of "query_endpoint en (queries_sent w)"]
    by (auto dest: spec [of _ 0])
  have q: "queries_sent ?w' = Suc (queries_sent w)"
    using assms(1) by (rule try_attempt_queries)
  have step: "poll_loop en tok vid lang max_retries delay attempt w =
              poll_loop en tok vid lang max_retries delay (attempt + 1) ?w'"
    using nr f nf
    by (cases "try_attempt en tok vid lang delay w";
        cases "outcome_of (query_endpoint en (queries_sent w))")
       (auto simp: poll_loop_step [OF lt])
  have a1: "attempt + 1 + int k = max_retries - 1" using Suc.prems(1) by simp
  have a2: "\<forall>j<Suc k. \<not> carries_result (query_endpoint en (queries_sent ?w' + j))"
  proof (intro allI impI)
    fix j assume "j < Suc k"
    then have "Suc j < Suc (Suc k)" by simp
    with Suc.prems(2) have "\<not> carries_result (query_endpoint en (queries_sent w + Suc j))"
      by blast
    then show "\<not> carries_result (query_endpoint en (queries_sent ?w' + j))"
      using q by simp
  qed
  show ?case
    using Suc.IH [OF a1 a2] q by (simp add: step)
qed

section \<open>The whole query\<close>

lemma query_recognition_result_Inl:
  "get_access_token en s w = (Inl e, s1, w1) \<Longrightarrow>
   query_recognition_result en s w vid lang max_retries delay = (Inl e, s1, w1)"
  by (simp add: query_recognition_result_def)

lemma query_recognition_result_Inr:
  "get_access_token en s w = (Inr tok, s1, w1) \<Longrightarrow>
   query_recognition_result en s w vid lang max_retries delay =
     (fst (poll_loop en tok vid lang max_retries delay 0 w1), s1,
      snd (poll_loop en tok vid lang max_retries delay 0 w1))"
  by (simp add: query_recognition_result_def split: prod.splits)



lemma cleanup_removes: "p \<notin> files (cleanup p w)"
  by (simp add: cleanup_def)

section \<open>Evaluating example runs\<close>

lemmas run_defs =
  serving_def in_order_def world_at_def cached_service_def fresh_service_def init_def
  token_granted_def token_without_expiry_def token_refused_def accepted_def not_ready_def
  server_busy_def invalid_voice_def hello_world_def unreachable_def
  get_access_token_def upload_voice_for_recognition_def query_recognition_result_def
  try_attempt_def sleep_def net_call_def log_event_def outcome_of_def classify_def
  dict_get_def dict_get_default_def lower_def lower_char_def
  count_events_def token_gets_def uuids_drawn_def submits_sent_def queries_sent_def sleeps_def
  credential_valid_def failed_after_def max_retries_exceeded_def
  time_time_def to_double_def float_of_int_def round53_def double_overflow_def
  str_of_int_def str_of_nat.simps digit_def quoted_def no_such_file_def

lemmas reply_defs =
  carries_result_def permanent_error_def transient_error_def error_reply_def
  remote_message_def transient_message_def

section \<open>Properties of the poll\<close>

text \<open>
  On an attempt before the final one, a reply with a non-zero error code and no result
  leads to the next attempt whatever its message: the transient error by \<open>continue\<close>,
  any other by the handler of the \<open>try\<close>.
\<close>

lemma error_reply_on_early_attempt:
  assumes "0 \<le> delay"
    and "attempt < max_retries - 1"
    and "error_reply (query_endpoint en (queries_sent w))"
  shows "poll_loop en tok vid lang max_retries delay attempt w =
           poll_loop en tok vid lang max_retries delay (attempt + 1)
             (snd (try_attempt en tok vid lang delay w))"
proof -
  have lt: "attempt < max_retries" and nf: "attempt \<noteq> max_retries - 1"
    using assms(2) by simp_all
  have "\<not> carries_result (query_endpoint en (queries_sent w))"
    using assms(3) by (auto simp: error_reply_def carries_result_def split: reply.splits)
  then have nr: "\<forall>v. outcome_of (query_endpoint en (queries_sent w)) \<noteq> Returned v"
    by (simp add: carries_result_iff)
  show ?thesis
    using nr nf assms(1)
    by (cases "outcome_of (query_endpoint en (queries_sent w))")
       (simp_all add: poll_loop_step [OF lt] try_attempt_nonneg)
qed

text \<open>
  C1: the claim does not hold of the code. The \<open>raise\<close> for an error that is not
  transient stands inside the \<open>try\<close> whose handler swallows every exception on an attempt
  that is not the final one. Here the first reply is \<open>{errcode: 2, errmsg: "invalid voice"}\<close>,
  a permanent error, and the call goes on to a second query and returns its result.
\<close>

theorem permanent_error_retried:
  "permanent_error invalid_voice \<and>
   query_recognition_result (serving [] [] [invalid_voice, hello_world]) cached_service
       (world_at 0) ''v'' ''zh_CN'' 5 1 =
     (Inr (JStr ''hello world''), cached_service,
      \<lparr>clock = 6, files = {''voice.wav''},
       events = [(0, Slept 1), (1, Query_post (JStr ''T0'') ''v'' ''zh_CN''),
                 (3, Slept 1), (4, Query_post (JStr ''T0'') ''v'' ''zh_CN'')]\<rparr>)"
  by (simp add: run_defs reply_defs poll_loop.simps)

text \<open>
  C2, as stated, fails: the credential is looked up once, before the loop. With a token
  cached until 1000 and the call made at 690, both queries go out (at 710 and at 732)
  with the cached token although the credential is no longer valid then, and the log holds
  no token request.
\<close>

theorem credential_not_refreshed_between_attempts:
  "query_recognition_result (serving [token_granted] [] [not_ready, not_ready]) cached_service
       (world_at 690) ''v'' ''zh_CN'' 2 20 =
     (Inl max_retries_exceeded, cached_service,
      \<lparr>clock = 734, files = {''voice.wav''},
       events = [(690, Slept 20), (710, Query_post (JStr ''T0'') ''v'' ''zh_CN''),
                 (712, Slept 20), (732, Query_post (JStr ''T0'') ''v'' ''zh_CN'')]\<rparr>) \<and>
   \<not> credential_valid cached_service 710 \<and>
   \<not> credential_valid cached_service 732"
  by (simp add: run_defs poll_loop.simps)

text \<open>
  C2, amended: a call obtains the credential once, before the first attempt. Whatever the
  loop then adds to the log is a sleep or a query request carrying that one token; the
  loop makes no token request and leaves the cached credential as the lookup left it.
\<close>

theorem credential_obtained_once_per_poll:
  assumes "get_access_token en s w = (Inr tok, s1, w1)"
  shows "fst (snd (query_recognition_result en s w vid lang max_retries delay)) = s1 \<and>
         extends_by (\<lambda>e. e = Slept delay \<or> e = Query_post tok vid lang) w1
           (snd (snd (query_recognition_result en s w vid lang max_retries delay))) \<and>
         token_gets (snd (snd (query_recognition_result en s w vid lang max_retries delay)))
           = token_gets w1"
proof -
  let ?w' = "snd (poll_loop en tok vid lang max_retries delay 0 w1)"
  have e: "extends_by (\<lambda>e. e = Slept delay \<or> e = Query_post tok vid lang) w1 ?w'"
    by (rule poll_loop_extends)
  have "count_events (\<lambda>e. e = Token_get) ?w' = count_events (\<lambda>e. e = Token_get) w1"
    by (rule extends_by_count [OF e]) auto
  then show ?thesis
    using e by (simp add: query_recognition_result_Inr [OF assms] token_gets_def)
qed

theorem credential_obtained_once_per_poll_witness:
  "fst (snd (query_recognition_result (serving [token_granted] [] [not_ready, not_ready])
              cached_service (world_at 690) ''v'' ''zh_CN'' 2 20)) = cached_service \<and>
   extends_by (\<lambda>e. e = Slept 20 \<or> e = Query_post (JStr ''T0'') ''v'' ''zh_CN'') (world_at 690)
     (snd (snd (query_recognition_result (serving [token_granted] [] [not_ready, not_ready])
              cached_service (world_at 690) ''v'' ''zh_CN'' 2 20))) \<and>
   token_gets (snd (snd (query_recognition_result (serving [token_granted] [] [not_ready, not_ready])
              cached_service (world_at 690) ''v'' ''zh_CN'' 2 20)))
     = token_gets (world_at 690)"
proof -
  have g: "get_access_token (serving [token_granted] [] [not_ready, not_ready]) cached_service
             (world_at 690) = (Inr (JStr ''T0''), cached_service, world_at 690)"
    by (simp add: run_defs)
  show ?thesis
    by (rule credential_obtained_once_per_poll [OF g])
qed

text \<open>
  C5: for every \<open>max_retries \<ge> 0\<close>, every environment (so every sequence of query
  replies) and every delay, a call of \<open>query_recognition_result\<close> adds at most
  \<open>max_retries\<close> query requests to the log, whether it returns or raises.
\<close>

theorem poll_never_exceeds_max_retries:
  assumes "0 \<le> max_retries"
  shows "int (queries_sent (snd (snd
           (query_recognition_result en s w vid lang max_retries delay))))
         \<le> int (queries_sent w) + max_retries"
proof -
  obtain r0 s1 w1 where g: "get_access_token en s w = (r0, s1, w1)"
    by (cases "get_access_token en s w") auto
  have q1: "queries_sent w1 = queries_sent w"
    using get_access_token_queries [of en s w] g by simp
  show ?thesis
  proof (cases r0)
    case (Inl e)
    then show ?thesis using g q1 assms by (simp add: query_recognition_result_Inl)
  next
    case (Inr tok)
    have "queries_sent (snd (poll_loop en tok vid lang max_retries delay 0 w1))
            \<le> queries_sent w1 + nat (max_retries - 0)"
      by (rule poll_loop_queries_le)
    then show ?thesis
      using g q1 assms Inr by (simp add: query_recognition_result_Inr)
  qed
qed

theorem poll_never_exceeds_max_retries_witness:
  "int (queries_sent (snd (snd
     (query_recognition_result (serving [] [] [not_ready, server_busy, not_ready, not_ready])
        cached_service (world_at 0) ''v'' ''zh_CN'' 3 1))))
   \<le> int (queries_sent (world_at 0)) + 3"
  using poll_never_exceeds_max_retries [of 3] by simp

text \<open>
  C6: once the credential is obtained, if none of the \<open>max_retries\<close> attempts gets a reply
  that carries a result or a permanent error, the call raises one of the two giving-up
  exceptions: \<open>failed_after\<close> with the transport error of the final attempt when that
  attempt's request failed, \<open>max_retries_exceeded\<close> otherwise. A transport failure on
  an attempt that is not the final one is retried: the loop goes on with the next attempt,
  one query later.
\<close>

theorem exhausted_after_max_retries:
  assumes "get_access_token en s w = (Inr tok, s1, w1)"
    and "0 \<le> delay"
    and "\<forall>j<nat max_retries.
           \<not> carries_result (query_endpoint en (queries_sent w + j)) \<and>
           \<not> permanent_error (query_endpoint en (queries_sent w + j))"
  shows "fst (query_recognition_result en s w vid lang max_retries delay) =
           Inl (if 0 < max_retries
                then (case query_endpoint en (queries_sent w + nat max_retries - 1) of
                        Fault e \<Rightarrow> failed_after max_retries e
                      | Body d \<Rightarrow> max_retries_exceeded)
                else max_retries_exceeded) \<and>
         (attempt < max_retries - 1 \<and> query_endpoint en (queries_sent w0) = Fault e \<longrightarrow>
            poll_loop en tok vid lang max_retries delay attempt w0 =
              poll_loop en tok vid lang max_retries delay (attempt + 1)
                (snd (try_attempt en tok vid lang delay w0)) \<and>
            queries_sent (snd (try_attempt en tok vid lang delay w0)) = Suc (queries_sent w0))"
proof (intro conjI impI)
  have q1: "queries_sent w1 = queries_sent w"
    using get_access_token_queries [of en s w] assms(1) by simp
  show "fst (query_recognition_result en s w vid lang max_retries delay) =
           Inl (if 0 < max_retries
                then (case query_endpoint en (queries_sent w + nat max_retries - 1) of
                        Fault e \<Rightarrow> failed_after max_retries e
                      | Body d \<Rightarrow> max_retries_exceeded)
                else max_retries_exceeded)"
  proof (cases "0 < max_retries")
    case False
    then show ?thesis
      using assms(1) by (simp add: query_recognition_result_Inr poll_loop_done)
  next
    case True
    define k where "k = nat max_retries - 1"
    have k: "0 + int k = max_retries - 1" and sk: "Suc k = nat max_retries"
      using True by (simp_all add: k_def)
    let ?last = "query_endpoint en (queries_sent w + k)"
    have n: "\<forall>j<Suc k. \<not> carries_result (query_endpoint en (queries_sent w1 + j))"
      using assms(3) q1 sk by simp
    have "\<not> carries_result ?last" "\<not> permanent_error ?last"
      using assms(3) sk by (metis lessI)+
    then have o: "outcome_of ?last = (case ?last of Fault e \<Rightarrow> Raised e | Body d \<Rightarrow> Next_attempt)"
      by (rule outcome_of_quiet)
    have "fst (poll_loop en tok vid lang max_retries delay 0 w1) =
           Inl (case outcome_of (query_endpoint en (queries_sent w1 + k)) of
                  Raised e \<Rightarrow> failed_after max_retries e
                | _ \<Rightarrow> max_retries_exceeded)"
      by (rule poll_loop_gives_up [OF assms(2) k n])
    then show ?thesis
      using True assms(1) q1 o sk
      by (cases ?last) (simp_all add: query_recognition_result_Inr k_def)
  qed
next
  assume a: "attempt < max_retries - 1 \<and> query_endpoint en (queries_sent w0) = Fault e"
  then have lt: "attempt < max_retries" by simp
  show "poll_loop en tok vid lang max_retries delay attempt w0 =
          poll_loop en tok vid lang max_retries delay (attempt + 1)
            (snd (try_attempt en tok vid lang delay w0))"
    using a assms(2)
    by (simp add: poll_loop_step [OF lt] try_attempt_nonneg outcome_of_def)
  show "queries_sent (snd (try_attempt en tok vid lang delay w0)) = Suc (queries_sent w0)"
    using assms(2) by (rule try_attempt_queries)
qed

theorem exhausted_after_max_retries_witness:
  "fst (query_recognition_result (serving [] [] [unreachable, server_busy, unreachable])
          cached_service (world_at 0) ''v'' ''zh_CN'' 3 1)
     = Inl (failed_after 3 ''connection refused'') \<and>
   poll_loop (serving [] [] [unreachable, server_busy, unreachable]) (JStr ''T0'')
       ''v'' ''zh_CN'' 3 1 0 (world_at 0)
     = poll_loop (serving [] [] [unreachable, server_busy, unreachable]) (JStr ''T0'')
         ''v'' ''zh_CN'' 3 1 1
         (snd (try_attempt (serving [] [] [unreachable, server_busy, unreachable])
                 (JStr ''T0'') ''v'' ''zh_CN'' 1 (world_at 0))) \<and>
   queries_sent (snd (try_attempt (serving [] [] [unreachable, server_busy, unreachable])
                 (JStr ''T0'') ''v'' ''zh_CN'' 1 (world_at 0))) = Suc (queries_sent (world_at 0))"
proof -
  let ?en = "serving [] [] [unreachable, server_busy, unreachable]"
  have g: "get_access_token ?en cached_service (world_at 0)
             = (Inr (JStr ''T0''), cached_service, world_at 0)"
    by (simp add: run_defs)
  have d: "(0::int) \<le> 1" by simp
  have q: "\<forall>j<nat 3.
           \<not> carries_result (query_endpoint ?en (queries_sent (world_at 0) + j)) \<and>
           \<not> permanent_error (query_endpoint ?en (queries_sent (world_at 0) + j))"
    by (simp add: run_defs reply_defs less_Suc_eq numeral_3_eq_3)
  have f: "query_endpoint ?en (queries_sent (world_at 0)) = Fault ''connection refused''"
    by (simp add: run_defs)
  have l: "query_endpoint ?en (queries_sent (world_at 0) + nat 3 - 1)
             = Fault ''connection refused''"
    by (simp add: run_defs)
  show ?thesis
    using exhausted_after_max_retries [OF g d q, where attempt = 0 and ?w0.0 = "world_at 0"
        and e = "''connection refused''" and vid = "''v''" and lang = "''zh_CN''"] f l
    by simp
qed

text \<open>
  C7: when the reply to the query of attempt \<open>k\<close> (counted from 0, so the \<open>k+1\<close>-th
  attempt; the earlier attempts brought no result, or attempt \<open>k\<close> would not be reached)
  carries a \<open>result\<close> field, the call returns that value, and the log holds exactly
  \<open>k+1\<close> more query requests and \<open>k+1\<close> more sleeps than before the call: nothing is
  sent and no sleep is taken after attempt \<open>k\<close>.
\<close>

theorem result_payload_returns_immediately:
  assumes "get_access_token en s w = (Inr tok, s1, w1)"
    and "0 \<le> delay"
    and "int k < max_retries"
    and "\<forall>j<k. \<not> carries_result (query_endpoint en (queries_sent w + j))"
    and "query_endpoint en (queries_sent w + k) = Body d"
    and "d ''result'' = Some v"
  shows "\<exists>w'. query_recognition_result en s w vid lang max_retries delay = (Inr v, s1, w') \<and>
              queries_sent w' = queries_sent w + Suc k \<and>
              sleeps w' = sleeps w + Suc k"
proof -
  have q1: "queries_sent w1 = queries_sent w"
    using get_access_token_queries [of en s w] assms(1) by simp
  have s1: "sleeps w1 = sleeps w"
    using get_access_token_sleeps [of en s w] assms(1) by simp
  have o: "outcome_of (query_endpoint en (queries_sent w1 + k)) = Returned v"
    using assms(5,6) q1 by (simp add: outcome_of_Returned)
  have n: "\<forall>j<k. \<not> carries_result (query_endpoint en (queries_sent w1 + j))"
    using assms(4) q1 by simp
  have a: "0 + int k < max_retries" using assms(3) by simp
  obtain r w' where p: "poll_loop en tok vid lang max_retries delay 0 w1 = (r, w')"
    by force
  from poll_loop_returns_at [OF assms(2) a n o, of tok vid lang] p
  have "r = Inr v" "queries_sent w' = queries_sent w1 + Suc k" "sleeps w' = sleeps w1 + Suc k"
    by simp_all
  then show ?thesis
    using assms(1) p q1 s1 by (simp add: query_recognition_result_def)
qed

theorem result_payload_returns_immediately_witness:
  "\<exists>w'. query_recognition_result (serving [] [] [not_ready, server_busy, hello_world, not_ready])
           cached_service (world_at 0) ''v'' ''zh_CN'' 5 1
         = (Inr (JStr ''hello world''), cached_service, w') \<and>
        queries_sent w' = queries_sent (world_at 0) + Suc 2 \<and>
        sleeps w' = sleeps (world_at 0) + Suc 2"
  by (rule result_payload_returns_immediately
        [where tok = "JStr ''T0''" and ?w1.0 = "world_at 0"
           and d = "[''result'' \<mapsto> JStr ''hello world'']"])
     (simp_all add: run_defs carries_result_def less_Suc_eq numeral_2_eq_2)

text \<open>
  C10, as stated, fails when the credential lookup raises: with no cached token and the
  token endpoint unreachable, a call with \<open>max_retries = 0\<close> raises the lookup's error,
  not the giving-up exception.
\<close>

theorem zero_retries_lookup_failure:
  "query_recognition_result (serving [unreachable] [] []) fresh_service (world_at 0)
       ''v'' ''zh_CN'' 0 1 =
     (Inl (Exception ''Error getting access_token: connection refused''), fresh_service,
      \<lparr>clock = 2, files = {''voice.wav''}, events = [(0, Token_get)]\<rparr>) \<and>
   Exception ''Error getting access_token: connection refused'' \<noteq> max_retries_exceeded"
  by (simp add: run_defs)

text \<open>
  C10, amended: with \<open>max_retries \<le> 0\<close> the call does nothing beyond the one credential
  lookup before the loop: the world it leaves is the world the lookup leaves, with no
  sleep and no query request added. When the lookup returns a token the call raises
  \<open>max_retries_exceeded\<close>; when the lookup raises, that exception is the call's.
\<close>

theorem zero_retries_only_lookup:
  assumes "max_retries \<le> 0"
  shows "query_recognition_result en s w vid lang max_retries delay =
           (case get_access_token en s w of
              (Inl e, s1, w1) \<Rightarrow> (Inl e, s1, w1)
            | (Inr tok, s1, w1) \<Rightarrow> (Inl max_retries_exceeded, s1, w1)) \<and>
         sleeps (snd (snd (query_recognition_result en s w vid lang max_retries delay)))
           = sleeps w \<and>
         queries_sent (snd (snd (query_recognition_result en s w vid lang max_retries delay)))
           = queries_sent w"
proof -
  obtain r0 s1 w1 where g: "get_access_token en s w = (r0, s1, w1)"
    by (cases "get_access_token en s w") auto
  have d: "\<not> 0 < max_retries" using assms by simp
  have q: "queries_sent w1 = queries_sent w"
    using get_access_token_queries [of en s w] g by simp
  have sl: "sleeps w1 = sleeps w"
    using get_access_token_sleeps [of en s w] g by simp
  show ?thesis
    using g q sl
    by (cases r0)
       (simp_all add: query_recognition_result_Inl query_recognition_result_Inr
          poll_loop_done [OF d])
qed

theorem zero_retries_only_lookup_witness:
  "query_recognition_result (serving [token_granted] [] [hello_world]) fresh_service (world_at 0)
       ''v'' ''zh_CN'' 0 1 =
     (Inl max_retries_exceeded,
      fresh_service\<lparr>access_token := JStr ''T1'', token_expire_time := Finite 3602\<rparr>,
      \<lparr>clock = 2, files = {''voice.wav''}, events = [(0, Token_get)]\<rparr>) \<and>
   sleeps (snd (snd (query_recognition_result (serving [token_granted] [] [hello_world])
              fresh_service (world_at 0) ''v'' ''zh_CN'' 0 1))) = sleeps (world_at 0) \<and>
   queries_sent (snd (snd (query_recognition_result (serving [token_granted] [] [hello_world])
              fresh_service (world_at 0) ''v'' ''zh_CN'' 0 1))) = queries_sent (world_at 0)"
proof -
  have g: "get_access_token (serving [token_granted] [] [hello_world]) fresh_service (world_at 0)
             = (Inr (JStr ''T1''),
                fresh_service\<lparr>access_token := JStr ''T1'', token_expire_time := Finite 3602\<rparr>,
                \<lparr>clock = 2, files = {''voice.wav''}, events = [(0, Token_get)]\<rparr>)"
    by (simp add: run_defs)
  have z: "(0::int) \<le> 0" by simp
  show ?thesis
    by (rule zero_retries_only_lookup
          [OF z, where en = "serving [token_granted] [] [hello_world]"
             and s = fresh_service and w = "world_at 0", unfolded g prod.case sum.case])
qed

section \<open>Properties of the credential\<close>

text \<open>
  A token reply whose \<open>expires_in\<close> does not fit a float: the addition raises when the
  token is already stored, and the expiry is the old one.
\<close>

lemma expires_in_too_large:
  "get_access_token
     (serving [Body [''access_token'' \<mapsto> JStr ''T1'', ''expires_in'' \<mapsto> JInt (10 ^ 400)]] [] [])
     cached_service (world_at 700) =
   (Inl (Exception ''Error getting access_token: int too large to convert to float''),
    cached_service\<lparr>access_token := JStr ''T1''\<rparr>,
    \<lparr>clock = 702, files = {''voice.wav''}, events = [(700, Token_get)]\<rparr>)"
  by (simp add: run_defs)

text \<open>An \<open>expires_in\<close> of \<open>2^53 + 1\<close> is rounded before it is added.\<close>

lemma expires_in_rounded:
  "get_access_token
     (serving [Body [''access_token'' \<mapsto> JStr ''T1'',
                     ''expires_in'' \<mapsto> JInt 9007199254740993]] [] [])
     cached_service (world_at 700) =
   (Inr (JStr ''T1''),
    cached_service\<lparr>access_token := JStr ''T1'', token_expire_time := Finite 9007199254741694\<rparr>,
    \<lparr>clock = 702, files = {''voice.wav''}, events = [(700, Token_get)]\<rparr>)"
  by (simp add: serving_def in_order_def world_at_def cached_service_def fresh_service_def init_def
        get_access_token_def net_call_def log_event_def dict_get_default_def
        count_events_def token_gets_def time_time_def to_double_def float_of_int_def
        double_overflow_def round53_examples round53_exact)

text \<open>
  C3: with a cached token and the clock strictly before \<open>token_expire_time - 300\<close> the
  call returns the cached token and leaves the state and the world (so the log, which
  gains no request) as they were. Otherwise it sends exactly one token request; when the
  reply carries \<open>access_token\<close>, the call caches and returns it, with expiry the time read
  after the request plus 7200 when the reply has no \<open>expires_in\<close>, and plus \<open>expires_in\<close>
  when that is an int that fits a float. The sum and the test are those of floats; for
  values below \<open>2^53\<close> in magnitude they are the sum and the comparison of integers.
\<close>

theorem get_access_token_caches:
  "(credential_valid s (clock w) \<longrightarrow>
      get_access_token en s w = (Inr (access_token s), s, w)) \<and>
   (\<not> credential_valid s (clock w) \<longrightarrow>
      snd (snd (get_access_token en s w)) = net_call en Token_get w \<and>
      token_gets (snd (snd (get_access_token en s w))) = Suc (token_gets w) \<and>
      (token_endpoint en (token_gets w) = Body d \<and> d ''access_token'' = Some tok \<and>
       d ''expires_in'' = None \<longrightarrow>
         get_access_token en s w =
           (Inr tok,
            s\<lparr>access_token := tok,
              token_expire_time := float_add (time_time (net_call en Token_get w)) 7200\<rparr>,
            net_call en Token_get w)) \<and>
      (token_endpoint en (token_gets w) = Body d \<and> d ''access_token'' = Some tok \<and>
       d ''expires_in'' = Some (JInt expires_in) \<and> \<bar>expires_in\<bar> < double_overflow \<longrightarrow>
         get_access_token en s w =
           (Inr tok,
            s\<lparr>access_token := tok,
              token_expire_time :=
                float_add (time_time (net_call en Token_get w)) (round53 expires_in)\<rparr>,
            net_call en Token_get w))) \<and>
   (\<bar>clock w'\<bar> < 2 ^ 53 \<and> \<bar>n\<bar> < 2 ^ 53 \<and> \<bar>clock w' + n\<bar> < 2 ^ 53 \<longrightarrow>
      float_add (time_time w') n = Finite (clock w' + n) \<and> round53 n = n) \<and>
   (token_expire_time s = Finite expires_at \<and> \<bar>now\<bar> < 2 ^ 53 \<and>
    \<bar>expires_at - 300\<bar> < 2 ^ 53 \<longrightarrow>
      credential_valid s now = (truthy (access_token s) \<and> now < expires_at - 300))"
proof (intro conjI impI)
  assume "credential_valid s (clock w)"
  then show "get_access_token en s w = (Inr (access_token s), s, w)"
    by (rule get_access_token_valid)
next
  assume "\<not> credential_valid s (clock w)"
  then show "snd (snd (get_access_token en s w)) = net_call en Token_get w"
    by (simp add: get_access_token_world)
next
  assume "\<not> credential_valid s (clock w)"
  then show "token_gets (snd (snd (get_access_token en s w))) = Suc (token_gets w)"
    by (simp add: get_access_token_world token_gets_def count_simps)
next
  assume "\<not> credential_valid s (clock w)"
    and "token_endpoint en (token_gets w) = Body d \<and> d ''access_token'' = Some tok \<and>
         d ''expires_in'' = None"
  then show "get_access_token en s w =
           (Inr tok,
            s\<lparr>access_token := tok,
              token_expire_time := float_add (time_time (net_call en Token_get w)) 7200\<rparr>,
            net_call en Token_get w)"
    by (simp add: get_access_token_fetch dict_get_default_def float_of_int_exact)
next
  assume "\<not> credential_valid s (clock w)"
    and "token_endpoint en (token_gets w) = Body d \<and> d ''access_token'' = Some tok \<and>
         d ''expires_in'' = Some (JInt expires_in) \<and> \<bar>expires_in\<bar> < double_overflow"
  then show "get_access_token en s w =
           (Inr tok,
            s\<lparr>access_token := tok,
              token_expire_time :=
                float_add (time_time (net_call en Token_get w)) (round53 expires_in)\<rparr>,
            net_call en Token_get w)"
    by (simp add: get_access_token_fetch dict_get_default_def float_of_int_fits)
next
  assume a: "\<bar>clock w'\<bar> < 2 ^ 53 \<and> \<bar>n\<bar> < 2 ^ 53 \<and> \<bar>clock w' + n\<bar> < 2 ^ 53"
  then show "float_add (time_time w') n = Finite (clock w' + n)"
    by (simp add: time_time_def to_double_exact)
  from a show "round53 n = n"
    by (simp add: round53_exact)
next
  assume "token_expire_time s = Finite expires_at \<and> \<bar>now\<bar> < 2 ^ 53 \<and>
          \<bar>expires_at - 300\<bar> < 2 ^ 53"
  then show "credential_valid s now = (truthy (access_token s) \<and> now < expires_at - 300)"
    by (simp add: credential_valid_def to_double_exact)
qed

theorem get_access_token_caches_witness:
  "get_access_token (serving [token_granted] [] []) cached_service (world_at 699)
     = (Inr (JStr ''T0''), cached_service, world_at 699) \<and>
   token_gets (snd (snd (get_access_token (serving [token_granted] [] []) cached_service
                           (world_at 700))))
     = Suc (token_gets (world_at 700)) \<and>
   get_access_token (serving [token_without_expiry] [] []) fresh_service (world_at 50)
     = (Inr (JStr ''T1''),
        fresh_service\<lparr>access_token := JStr ''T1'', token_expire_time := Finite (52 + 7200)\<rparr>,
        \<lparr>clock = 52, files = {''voice.wav''}, events = [(50, Token_get)]\<rparr>) \<and>
   get_access_token (serving [token_granted] [] []) cached_service (world_at 700)
     = (Inr (JStr ''T1''),
        cached_service\<lparr>access_token := JStr ''T1'', token_expire_time := Finite (702 + 3600)\<rparr>,
        \<lparr>clock = 702, files = {''voice.wav''}, events = [(700, Token_get)]\<rparr>) \<and>
   credential_valid cached_service 699 = (truthy (access_token cached_service) \<and> (699::int) < 1000 - 300)"
proof -
  let ?w50 = "\<lparr>clock = 52, files = {''voice.wav''}, events = [(50, Token_get)]\<rparr>"
  let ?w700 = "\<lparr>clock = 702, files = {''voice.wav''}, events = [(700, Token_get)]\<rparr>"
  have v: "credential_valid cached_service (clock (world_at 699))"
    and n: "\<not> credential_valid cached_service (clock (world_at 700))"
    and f: "\<not> credential_valid fresh_service (clock (world_at 50))"
    by (simp_all add: run_defs)
  have w50: "net_call (serving [token_without_expiry] [] []) Token_get (world_at 50) = ?w50"
    and w700: "net_call (serving [token_granted] [] []) Token_get (world_at 700) = ?w700"
    by (simp_all add: run_defs)
  have r50: "token_endpoint (serving [token_without_expiry] [] []) (token_gets (world_at 50))
               = Body [''access_token'' \<mapsto> JStr ''T1'']"
    and r700: "token_endpoint (serving [token_granted] [] []) (token_gets (world_at 700))
               = Body [''access_token'' \<mapsto> JStr ''T1'', ''expires_in'' \<mapsto> JInt 3600]"
    by (simp_all add: run_defs)
  have small: "\<bar>3600::int\<bar> < double_overflow"
    by (simp add: double_overflow_def)
  have x50: "\<bar>clock ?w50\<bar> < 2 ^ 53 \<and> \<bar>7200::int\<bar> < 2 ^ 53 \<and> \<bar>clock ?w50 + 7200\<bar> < 2 ^ 53"
    and x700: "\<bar>clock ?w700\<bar> < 2 ^ 53 \<and> \<bar>3600::int\<bar> < 2 ^ 53 \<and> \<bar>clock ?w700 + 3600\<bar> < 2 ^ 53"
    by simp_all
  have e: "token_expire_time cached_service = Finite 1000 \<and> \<bar>699::int\<bar> < 2 ^ 53 \<and>
           \<bar>1000 - 300 :: int\<bar> < 2 ^ 53"
    by (simp add: cached_service_def)
  have s50: "float_add (time_time ?w50) 7200 = Finite (52 + 7200)"
    using get_access_token_caches
      [where s = fresh_service and w = "world_at 50" and w' = ?w50 and n = 7200
         and en = "serving [token_without_expiry] [] []" and d = Map.empty and tok = JNull
         and expires_in = 0 and now = 0 and expires_at = 0] x50
    by simp
  have s700: "float_add (time_time ?w700) (round53 3600) = Finite (702 + 3600)"
    using get_access_token_caches
      [where s = fresh_service and w = "world_at 50" and w' = ?w700 and n = 3600
         and en = "serving [token_without_expiry] [] []" and d = Map.empty and tok = JNull
         and expires_in = 0 and now = 0 and expires_at = 0] x700
    by simp
  have a: "get_access_token (serving [token_granted] [] []) cached_service (world_at 699)
             = (Inr (JStr ''T0''), cached_service, world_at 699)"
    using get_access_token_caches
      [where s = cached_service and w = "world_at 699" and en = "serving [token_granted] [] []"] v
    by (simp add: cached_service_def)
  have b: "token_gets (snd (snd (get_access_token (serving [token_granted] [] []) cached_service
                           (world_at 700)))) = Suc (token_gets (world_at 700))"
    using get_access_token_caches
      [where s = cached_service and w = "world_at 700" and en = "serving [token_granted] [] []"
         and d = Map.empty and tok = JNull and expires_in = 0] n
    by blast
  have c: "get_access_token (serving [token_without_expiry] [] []) fresh_service (world_at 50)
     = (Inr (JStr ''T1''),
        fresh_service\<lparr>access_token := JStr ''T1'', token_expire_time := Finite (52 + 7200)\<rparr>,
        ?w50)"
    using get_access_token_caches
      [where s = fresh_service and w = "world_at 50"
         and en = "serving [token_without_expiry] [] []"
         and d = "[''access_token'' \<mapsto> JStr ''T1'']" and tok = "JStr ''T1''"]
      f r50 w50 s50 by simp
  have d: "get_access_token (serving [token_granted] [] []) cached_service (world_at 700)
     = (Inr (JStr ''T1''),
        cached_service\<lparr>access_token := JStr ''T1'', token_expire_time := Finite (702 + 3600)\<rparr>,
        ?w700)"
    using get_access_token_caches
      [where s = cached_service and w = "world_at 700"
         and en = "serving [token_granted] [] []"
         and d = "[''access_token'' \<mapsto> JStr ''T1'', ''expires_in'' \<mapsto> JInt 3600]"
         and tok = "JStr ''T1''" and expires_in = 3600]
      n r700 w700 s700 small by simp
  have g: "credential_valid cached_service 699
             = (truthy (access_token cached_service) \<and> (699::int) < 1000 - 300)"
    by (rule get_access_token_caches
          [THEN conjunct2, THEN conjunct2, THEN conjunct2, THEN mp, OF e])
  show ?thesis using a b c d g by blast
qed

text \<open>
  C9: when the cached credential is not valid, so that the token request is made, and the
  request fails (the endpoint is unreachable) or its reply has no \<open>access_token\<close> (an error
  payload), the call raises and the service's state, token and expiry, is what it was.
\<close>

theorem failed_fetch_keeps_cache:
  assumes "\<not> credential_valid s (clock w)"
    and "token_endpoint en (token_gets w) = Fault e \<or>
         (token_endpoint en (token_gets w) = Body d \<and> d ''access_token'' = None)"
  shows "(\<exists>m. fst (get_access_token en s w) = Inl (Exception m)) \<and>
         fst (snd (get_access_token en s w)) = s"
  using assms by (auto simp: get_access_token_fetch)

theorem failed_fetch_keeps_cache_witness:
  "((\<exists>m. fst (get_access_token (serving [unreachable] [] []) cached_service (world_at 800))
           = Inl (Exception m)) \<and>
    fst (snd (get_access_token (serving [unreachable] [] []) cached_service (world_at 800)))
      = cached_service) \<and>
   ((\<exists>m. fst (get_access_token (serving [token_refused] [] []) cached_service (world_at 800))
           = Inl (Exception m)) \<and>
    fst (snd (get_access_token (serving [token_refused] [] []) cached_service (world_at 800)))
      = cached_service)"
proof -
  have n: "\<not> credential_valid cached_service (clock (world_at 800))"
    by (simp add: run_defs)
  have u: "token_endpoint (serving [unreachable] [] []) (token_gets (world_at 800))
             = Fault ''connection refused'' \<or>
           (token_endpoint (serving [unreachable] [] []) (token_gets (world_at 800))
              = Body Map.empty \<and> Map.empty ''access_token'' = None)"
    by (simp add: run_defs)
  have r: "token_endpoint (serving [token_refused] [] []) (token_gets (world_at 800))
             = Fault [] \<or>
           (token_endpoint (serving [token_refused] [] []) (token_gets (world_at 800))
              = Body [''errcode'' \<mapsto> JInt 40013, ''errmsg'' \<mapsto> JStr ''invalid appid''] \<and>
            [''errcode'' \<mapsto> JInt 40013, ''errmsg'' \<mapsto> JStr ''invalid appid''] ''access_token''
              = None)"
    by (simp add: run_defs)
  show ?thesis
    using failed_fetch_keeps_cache [OF n u] failed_fetch_keeps_cache [OF n r] by blast
qed

section \<open>Properties of the submission\<close>

text \<open>
  C8, as stated, fails for a call that cannot reach the request. When the credential
  lookup raises, no identifier is generated, nothing is sent, and the exception is the
  lookup's; when the audio file cannot be opened, an identifier is generated and still
  nothing is sent.
\<close>

theorem upload_without_request:
  "upload_voice_for_recognition (serving [unreachable] [accepted] []) fresh_service (world_at 0)
       ''voice.wav'' ''zh_CN'' =
     (Inl (Exception ''Error getting access_token: connection refused''), fresh_service,
      \<lparr>clock = 2, files = {''voice.wav''}, events = [(0, Token_get)]\<rparr>) \<and>
   upload_voice_for_recognition (serving [] [accepted] []) cached_service (world_at 0)
       ''missing.mp3'' ''zh_CN'' =
     (Inl (Exception (''Voice upload error: '' @ no_such_file ''missing.mp3'')), cached_service,
      \<lparr>clock = 0, files = {''voice.wav''}, events = [(0, Uuid_drawn)]\<rparr>)"
  by (simp add: run_defs)

text \<open>
  C8, amended: a call whose credential lookup returns a token and whose audio file exists
  draws one identifier from the generator, the next one not yet drawn, and sends exactly
  one submit request, carrying it. A reply whose \<open>errcode\<close> equals 0 makes the call return
  that identifier. Any other reply makes it raise \<open>Voice upload error: Upload failed:\<close> with
  the reply's \<open>errmsg\<close> (\<open>Unknown error\<close> when it has none), and a failed request makes it
  raise \<open>Voice upload error:\<close> with the transport error; in no case is a second request sent.
\<close>

theorem upload_sends_one_request:
  assumes "get_access_token en s w = (Inr tok, s1, w1)"
    and "p \<in> files w"
  shows "\<exists>w'. upload_voice_for_recognition en s w p lang =
           (case submit_endpoint en (submits_sent w) of
              Fault e \<Rightarrow> Inl (Exception (''Voice upload error: '' @ e))
            | Body result \<Rightarrow>
                if eq_zero (dict_get result ''errcode'')
                then Inr (uuid4 en (uuids_drawn w))
                else Inl (Exception (''Voice upload error: '' @ ''Upload failed: '' @
                       py_str (dict_get_default result ''errmsg'' (JStr ''Unknown error'')))),
            s1, w') \<and>
         events w' = events w1 @
           [(clock w1, Uuid_drawn),
            (clock w1, Submit_post tok (uuid4 en (uuids_drawn w)) lang p)] \<and>
         uuids_drawn w' = Suc (uuids_drawn w) \<and>
         submits_sent w' = Suc (submits_sent w)"
proof -
  have f: "files w1 = files w"
    using get_access_token_files [of en s w] assms(1) by simp
  have u: "uuids_drawn w1 = uuids_drawn w"
    unfolding uuids_drawn_def
    using get_access_token_count [of "\<lambda>e. e = Uuid_drawn" en s w] assms(1) by simp
  have sb: "submits_sent w1 = submits_sent w"
    unfolding submits_sent_def
    using get_access_token_count
      [of "\<lambda>e. case e of Submit_post t v l p \<Rightarrow> True | _ \<Rightarrow> False" en s w] assms(1)
    by simp
  let ?w' = "net_call en (Submit_post tok (uuid4 en (uuids_drawn w)) lang p)
               (log_event Uuid_drawn w1)"
  have ev: "events ?w' = events w1 @
           [(clock w1, Uuid_drawn),
            (clock w1, Submit_post tok (uuid4 en (uuids_drawn w)) lang p)]"
    by (simp add: net_call_def log_event_def)
  have cu: "uuids_drawn ?w' = Suc (uuids_drawn w)"
    using u by (simp add: uuids_drawn_def count_simps)
  have cs: "submits_sent ?w' = Suc (submits_sent w)"
    using sb by (simp add: submits_sent_def count_simps)
  have cs2: "submits_sent (log_event Uuid_drawn w1) = submits_sent w"
    using sb by (simp add: submits_sent_def count_simps)
  have "upload_voice_for_recognition en s w p lang =
           (case submit_endpoint en (submits_sent w) of
              Fault e \<Rightarrow> Inl (Exception (''Voice upload error: '' @ e))
            | Body result \<Rightarrow>
                if eq_zero (dict_get result ''errcode'')
                then Inr (uuid4 en (uuids_drawn w))
                else Inl (Exception (''Voice upload error: '' @ ''Upload failed: '' @
                       py_str (dict_get_default result ''errmsg'' (JStr ''Unknown error'')))),
            s1, ?w')"
    using assms f u cs2
    by (simp add: upload_voice_for_recognition_def Let_def files_log_event split: reply.splits)
  then show ?thesis using ev cu cs by blast
qed

theorem upload_sends_one_request_witness:
  "\<exists>w'. upload_voice_for_recognition (serving [] [accepted, accepted] []) cached_service
           (world_at 0) ''voice.wav'' ''zh_CN'' =
           (case submit_endpoint (serving [] [accepted, accepted] []) (submits_sent (world_at 0)) of
              Fault e \<Rightarrow> Inl (Exception (''Voice upload error: '' @ e))
            | Body result \<Rightarrow>
                if eq_zero (dict_get result ''errcode'')
                then Inr (uuid4 (serving [] [accepted, accepted] []) (uuids_drawn (world_at 0)))
                else Inl (Exception (''Voice upload error: '' @ ''Upload failed: '' @
                       py_str (dict_get_default result ''errmsg'' (JStr ''Unknown error'')))),
            cached_service, w') \<and>
         events w' = events (world_at 0) @
           [(clock (world_at 0), Uuid_drawn),
            (clock (world_at 0),
             Submit_post (JStr ''T0'')
               (uuid4 (serving [] [accepted, accepted] []) (uuids_drawn (world_at 0)))
               ''zh_CN'' ''voice.wav'')] \<and>
         uuids_drawn w' = Suc (uuids_drawn (world_at 0)) \<and>
         submits_sent w' = Suc (submits_sent (world_at 0))"
proof -
  have g: "get_access_token (serving [] [accepted, accepted] []) cached_service (world_at 0)
             = (Inr (JStr ''T0''), cached_service, world_at 0)"
    by (simp add: run_defs)
  have p: "''voice.wav'' \<in> files (world_at 0)"
    by (simp add: world_at_def)
  show ?thesis
    by (rule upload_sends_one_request [OF g p])
qed

section \<open>Properties of the pipeline\<close>




end
